theory Spec2Isabelle
  imports Complex_Main "HOL-Library.Char_ord" "HOL-Library.List_Lexorder"
begin

section \<open>JSON values and Python dictionaries\<close>

text \<open>
  The three utilities exchange JSON documents. A parsed document is a value of
  \<open>json\<close>. A Python \<open>dict\<close> keeps its keys in insertion order, so an object is an
  association list; \<open>json.loads\<close> yields objects whose keys are distinct.
  Numbers are Python integers (floats are not modelled). Strings are \<open>string\<close>,
  that is, lists of 8-bit characters: the model covers ASCII text.
\<close>

datatype json =
    JNull
  | JBool bool
  | JInt int
  | JStr string
  | JArr "json list"
  | JObj "(string \<times> json) list"

datatype error = TypeError | AttributeError | Unmodelled

text \<open>\<open>d.get(k)\<close>: the value stored under \<open>k\<close>, if any.\<close>

fun dict_get :: "(string \<times> json) list \<Rightarrow> string \<Rightarrow> json option" where
  "dict_get [] k = None"
| "dict_get ((k', v) # kvs) k = (if k' = k then Some v else dict_get kvs k)"

text \<open>
  \<open>d[k] = v\<close>: an existing key keeps its position and gets the new value, a new key
  is appended at the end.
\<close>

fun dict_set :: "(string \<times> json) list \<Rightarrow> string \<Rightarrow> json \<Rightarrow> (string \<times> json) list" where
  "dict_set [] k v = [(k, v)]"
| "dict_set ((k', v') # kvs) k v =
     (if k' = k then (k, v) # kvs else (k', v') # dict_set kvs k v)"

text \<open>The object without one key; used only to state what an assignment leaves alone.\<close>

fun dict_del :: "(string \<times> json) list \<Rightarrow> string \<Rightarrow> (string \<times> json) list" where
  "dict_del [] k = []"
| "dict_del ((k', v') # kvs) k =
     (if k' = k then dict_del kvs k else (k', v') # dict_del kvs k)"

fun is_dict :: "json \<Rightarrow> bool" where
  "is_dict (JObj kvs) = True"
| "is_dict _ = False"

text \<open>Field access on a value known to be an object (\<open>None\<close> on anything else).\<close>

fun field :: "string \<Rightarrow> json \<Rightarrow> json option" where
  "field k (JObj kvs) = dict_get kvs k"
| "field k _ = None"

fun without :: "string \<Rightarrow> json \<Rightarrow> json" where
  "without k (JObj kvs) = JObj (dict_del kvs k)"
| "without k v = v"

section \<open>The splitter (\<open>src/book/split_words.py\<close>)\<close>

text \<open>
  \<open>for i, word_obj in enumerate(current_batch, 1): word_obj['wordRank'] = i\<close>.
  Item assignment on anything but a \<open>dict\<close> raises \<open>TypeError\<close>.
\<close>

fun renumber :: "nat \<Rightarrow> json list \<Rightarrow> error + json list" where
  "renumber i [] = Inr []"
| "renumber i (JObj kvs # ws) =
     (case renumber (Suc i) ws of
        Inl e \<Rightarrow> Inl e
      | Inr r \<Rightarrow> Inr (JObj (dict_set kvs ''wordRank'' (JInt (int i))) # r))"
| "renumber i (_ # ws) = Inl TypeError"

text \<open>Decimal digits of a natural number, and the format \<open>{n:03d}\<close>.\<close>

definition digit_char :: "nat \<Rightarrow> char" where
  "digit_char d = ''0123456789'' ! d"

fun dec :: "nat \<Rightarrow> string" where
  "dec n = (if n < 10 then [digit_char n] else dec (n div 10) @ [digit_char (n mod 10)])"

declare dec.simps [simp del]

definition fmt_03d :: "nat \<Rightarrow> string" where
  "fmt_03d n = replicate (3 - length (dec n)) (CHR ''0'') @ dec n"

definition output_filename :: "nat \<Rightarrow> string" where
  "output_filename file_index = ''words_'' @ fmt_03d (file_index + 1) @ ''.json''"

definition words_per_file :: nat where
  "words_per_file = 1000"

text \<open>
  \<open>math.ceil(total_words / words_per_file)\<close>. The Python quotient is a float; it
  agrees with the exact quotient for every list that fits in memory.
\<close>

definition total_files :: "nat \<Rightarrow> nat" where
  "total_files total_words = nat \<lceil>real total_words / real words_per_file\<rceil>"

text \<open>
  The loop \<open>for file_index in range(total_files)\<close>. The output directory is the list
  of files written so far, in the order they were written. An exception leaves
  the loop; the files already written stay.
\<close>

fun write_partitions ::
  "json list \<Rightarrow> nat list \<Rightarrow> (string \<times> json list) list
     \<Rightarrow> (string \<times> json list) list \<times> error option" where
  "write_partitions words_data [] out = (out, None)"
| "write_partitions words_data (file_index # rest) out =
     (let start_index = file_index * words_per_file;
          end_index = min ((file_index + 1) * words_per_file) (length words_data);
          current_batch = take (end_index - start_index) (drop start_index words_data)
      in case renumber 1 current_batch of
           Inl e \<Rightarrow> (out, Some e)
         | Inr batch \<Rightarrow>
             write_partitions words_data rest (out @ [(output_filename file_index, batch)]))"

definition split_unique_words ::
  "json list \<Rightarrow> (string \<times> json list) list \<times> error option" where
  "split_unique_words words_data =
     write_partitions words_data [0 ..< total_files (length words_data)] []"

text \<open>
  Two notions used to state what the splitter writes: an entry with its rank set,
  and the slice \<open>words_data[fi * 1000 : (fi + 1) * 1000]\<close>.
\<close>

fun with_rank :: "nat \<Rightarrow> json \<Rightarrow> json" where
  "with_rank n (JObj kvs) = JObj (dict_set kvs ''wordRank'' (JInt (int n)))"
| "with_rank n v = v"

definition ranked_from :: "nat \<Rightarrow> json list \<Rightarrow> json list" where
  "ranked_from i ws = map (\<lambda>(j, w). with_rank j w) (enumerate i ws)"

definition chunk :: "json list \<Rightarrow> nat \<Rightarrow> json list" where
  "chunk wd fi = take 1000 (drop (fi * 1000) wd)"


section \<open>Properties of the splitter\<close>

lemma total_files_div: "total_files n = (n + 999) div 1000"
proof -
  have "\<lceil>real n / 1000\<rceil> = - (- int n div 1000)"
    using ceiling_divide_eq_div [of "int n" 1000] by simp
  also have "\<dots> = int ((n + 999) div 1000)"
    by (simp add: zdiv_int)
  finally show ?thesis by (simp add: total_files_def words_per_file_def)
qed

lemma chunk_take: "take (min (a + s) (length wd) - s) (drop s wd) = take a (drop s wd)"
  by (cases "a + s \<le> length wd") (simp_all add: min_def)

lemma renumber_dicts: "list_all is_dict ws \<Longrightarrow> renumber i ws = Inr (ranked_from i ws)"
proof (induction ws arbitrary: i)
  case Nil then show ?case by (simp add: ranked_from_def)
next
  case (Cons w ws)
  then show ?case by (cases w) (simp_all add: ranked_from_def)
qed

lemma write_partitions_dicts:
  "list_all is_dict wd \<Longrightarrow>
   write_partitions wd idxs out =
     (out @ map (\<lambda>fi. (output_filename fi, ranked_from 1 (chunk wd fi))) idxs, None)"
proof (induction idxs arbitrary: out)
  case Nil then show ?case by simp
next
  case (Cons fi idxs)
  have d: "list_all is_dict (chunk wd fi)"
    using Cons.prems unfolding chunk_def list_all_iff by (auto dest: in_set_takeD in_set_dropD)
  show ?case
    using Cons.IH [OF Cons.prems] renumber_dicts [OF d, of 1]
    by (simp add: words_per_file_def chunk_take chunk_def Let_def)
qed

lemma length_ranked_from: "length (ranked_from i ws) = length ws"
  by (simp add: ranked_from_def)

lemma nth_ranked_from: "j < length ws \<Longrightarrow> ranked_from i ws ! j = with_rank (i + j) (ws ! j)"
  by (simp add: ranked_from_def nth_enumerate_eq)

lemma length_chunk: "length (chunk wd fi) = min 1000 (length wd - fi * 1000)"
  by (simp add: chunk_def min.commute)

lemma nth_chunk: "j < length (chunk wd fi) \<Longrightarrow> chunk wd fi ! j = wd ! (fi * 1000 + j)"
proof -
  assume "j < length (chunk wd fi)"
  then have "j < 1000" and "fi * 1000 \<le> length wd" by (auto simp add: chunk_def)
  then show ?thesis by (simp add: chunk_def)
qed

lemma dict_get_set: "dict_get (dict_set kvs k v) k = Some v"
  by (induction kvs) auto

lemma field_with_rank: "is_dict w \<Longrightarrow> field ''wordRank'' (with_rank r w) = Some (JInt (int r))"
  by (cases w) (simp_all add: dict_get_set)

lemma concat_chunks: "concat (map (chunk wd) [0 ..< m]) = take (m * 1000) wd"
proof (induction m)
  case 0 show ?case by simp
next
  case (Suc m)
  have "take (m * 1000) wd @ chunk wd m = take (m * 1000 + 1000) wd"
    unfolding chunk_def by (rule take_add [symmetric])
  with Suc show ?case by (simp add: add.commute)
qed

lemma index_in_range: "fi < (n + 999) div 1000 \<Longrightarrow> fi * 1000 < (n::nat)"
  by arith

lemma full_before_last: "fi + 1 < (n + 999) div 1000 \<Longrightarrow> fi * 1000 + 1000 \<le> (n::nat)"
  by arith

lemma ranks_ranked_from:
  "list_all is_dict ws \<Longrightarrow>
   map (field ''wordRank'') (ranked_from i ws) = map (\<lambda>r. Some (JInt (int r))) [i ..< i + length ws]"
proof (rule nth_equalityI)
  show "length (map (field ''wordRank'') (ranked_from i ws)) =
        length (map (\<lambda>r. Some (JInt (int r))) [i ..< i + length ws])"
    by (simp add: length_ranked_from)
next
  fix j assume a: "list_all is_dict ws" and "j < length (map (field ''wordRank'') (ranked_from i ws))"
  then have j: "j < length ws" by (simp add: length_ranked_from)
  with a have "is_dict (ws ! j)" by (simp add: list_all_length)
  with j show "map (field ''wordRank'') (ranked_from i ws) ! j =
        map (\<lambda>r. Some (JInt (int r))) [i ..< i + length ws] ! j"
    by (simp add: length_ranked_from nth_ranked_from field_with_rank)
qed

lemma split_all_dicts:
  "list_all is_dict wd \<Longrightarrow>
   split_unique_words wd =
     (map (\<lambda>fi. (output_filename fi, ranked_from 1 (chunk wd fi))) [0 ..< total_files (length wd)], None)"
  by (simp add: split_unique_words_def write_partitions_dicts)


text \<open>
  Claim C3. For an input array of \<open>N\<close> objects the splitter finishes without an
  exception and writes exactly \<open>ceil(N / 1000)\<close> files; the file of index \<open>i\<close>
  (counted from 0) is named \<open>words_{i+1:03d}.json\<close>, is non-empty, holds at most
  1000 entries and exactly 1000 unless it is the last one; its \<open>j\<close>-th entry is
  the input entry at position \<open>1000 * i + j\<close> with its \<open>wordRank\<close> set to
  \<open>j + 1\<close>, so its ranks read \<open>1..len\<close>; the sizes of all files add up to \<open>N\<close>.
\<close>

theorem split_partitions:
  assumes "list_all is_dict xs"
  shows "\<exists>files. split_unique_words xs = (files, None) \<and>
     length files = nat \<lceil>real (length xs) / 1000\<rceil> \<and>
     (\<forall>i<length files.
        fst (files ! i) = ''words_'' @ fmt_03d (i + 1) @ ''.json'' \<and>
        0 < length (snd (files ! i)) \<and> length (snd (files ! i)) \<le> 1000 \<and>
        (i + 1 < length files \<longrightarrow> length (snd (files ! i)) = 1000) \<and>
        (\<forall>j<length (snd (files ! i)).
           snd (files ! i) ! j = with_rank (j + 1) (xs ! (i * 1000 + j))) \<and>
        map (field ''wordRank'') (snd (files ! i)) =
          map (\<lambda>r. Some (JInt (int r))) [1 ..< length (snd (files ! i)) + 1]) \<and>
     sum_list (map (\<lambda>f. length (snd f)) files) = length xs"
proof -
  define n where "n = length xs"
  define m where "m = total_files n"
  define files where
    "files = map (\<lambda>fi. (output_filename fi, ranked_from 1 (chunk xs fi))) [0 ..< m]"
  have m: "m = (n + 999) div 1000" by (simp add: m_def total_files_div)
  have run: "split_unique_words xs = (files, None)"
    using assms by (simp add: split_all_dicts files_def m_def n_def)
  have len: "length files = nat \<lceil>real (length xs) / 1000\<rceil>"
    by (simp add: files_def m_def n_def total_files_def words_per_file_def)
  have each: "fst (files ! i) = ''words_'' @ fmt_03d (i + 1) @ ''.json'' \<and>
        0 < length (snd (files ! i)) \<and> length (snd (files ! i)) \<le> 1000 \<and>
        (i + 1 < length files \<longrightarrow> length (snd (files ! i)) = 1000) \<and>
        (\<forall>j<length (snd (files ! i)).
           snd (files ! i) ! j = with_rank (j + 1) (xs ! (i * 1000 + j))) \<and>
        map (field ''wordRank'') (snd (files ! i)) =
          map (\<lambda>r. Some (JInt (int r))) [1 ..< length (snd (files ! i)) + 1]"
    if i: "i < length files" for i
  proof -
    from i have im: "i < m" by (simp add: files_def)
    then have f: "files ! i = (output_filename i, ranked_from 1 (chunk xs i))"
      by (simp add: files_def)
    have lc: "length (snd (files ! i)) = min 1000 (n - i * 1000)"
      by (simp add: f length_ranked_from length_chunk n_def)
    have pos: "i * 1000 < n" using im m index_in_range by simp
    have full: "i + 1 < length files \<longrightarrow> i * 1000 + 1000 \<le> n"
      using m full_before_last by (simp add: files_def)
    have d: "list_all is_dict (chunk xs i)"
      using assms unfolding chunk_def list_all_iff by (auto dest: in_set_takeD in_set_dropD)
    have nth: "\<forall>j<length (snd (files ! i)).
           snd (files ! i) ! j = with_rank (j + 1) (xs ! (i * 1000 + j))"
      by (simp add: f length_ranked_from nth_ranked_from nth_chunk)
    have rk: "map (field ''wordRank'') (snd (files ! i)) =
          map (\<lambda>r. Some (JInt (int r))) [1 ..< length (snd (files ! i)) + 1]"
      using ranks_ranked_from [OF d, of 1] by (simp add: f length_ranked_from)
    have name: "fst (files ! i) = ''words_'' @ fmt_03d (i + 1) @ ''.json''"
      by (simp add: f output_filename_def)
    have ne: "0 < length (snd (files ! i))" using pos unfolding lc by simp
    have le: "length (snd (files ! i)) \<le> 1000" unfolding lc by simp
    have full': "i + 1 < length files \<longrightarrow> length (snd (files ! i)) = 1000"
      using full unfolding lc by auto
    from name ne le full' nth rk show ?thesis by blast
  qed
  have "sum_list (map (\<lambda>f. length (snd f)) files) = length (concat (map (chunk xs) [0 ..< m]))"
    by (simp add: files_def length_concat comp_def length_ranked_from)
  also have "\<dots> = length xs"
    using m by (simp add: concat_chunks n_def)
  finally have total: "sum_list (map (\<lambda>f. length (snd f)) files) = length xs" .
  from run len each total show ?thesis by blast
qed


theorem split_partitions_witness:
  "list_all is_dict [JObj [(''headWord'', JStr ''tea''), (''wordRank'', JInt 7)], JObj [(''headWord'', JStr ''ink'')]] \<and>
   (\<exists>files. split_unique_words [JObj [(''headWord'', JStr ''tea''), (''wordRank'', JInt 7)], JObj [(''headWord'', JStr ''ink'')]] = (files, None) \<and>
     length files = 1 \<and> fst (files ! 0) = ''words_001.json'' \<and>
     snd (files ! 0) = [JObj [(''headWord'', JStr ''tea''), (''wordRank'', JInt 1)],
                        JObj [(''headWord'', JStr ''ink''), (''wordRank'', JInt 2)]])"
proof -
  let ?xs = "[JObj [(''headWord'', JStr ''tea''), (''wordRank'', JInt 7)], JObj [(''headWord'', JStr ''ink'')]]"
  have h: "list_all is_dict ?xs" by simp
  from split_partitions [OF h] obtain files where
    r: "split_unique_words ?xs = (files, None)" by blast
  have "split_unique_words ?xs =
      ([(''words_001.json'', [JObj [(''headWord'', JStr ''tea''), (''wordRank'', JInt 1)],
                        JObj [(''headWord'', JStr ''ink''), (''wordRank'', JInt 2)]])], None)"
    by (simp add: split_unique_words_def total_files_div words_per_file_def
        output_filename_def fmt_03d_def dec.simps digit_char_def numeral_2_eq_2)
  with r h show ?thesis by auto
qed

end
